theory Spec2Isabelle
  imports Complex_Main "HOL-Library.AList"
begin

section \<open>Python strings\<close>

text \<open>
  A Python \<open>str\<close> is modelled as a \<open>string\<close>: a list of characters with code points
  below 256. The operations below are the ones \<open>screeny.py\<close> applies to strings.
\<close>

definition py_isspace :: "char \<Rightarrow> bool" where
  \<comment> \<open>\<open>str.isspace\<close> on the code points below 256.\<close>
  "py_isspace c =
     (let n = (of_char c :: nat)
      in (9 \<le> n \<and> n \<le> 13) \<or> (28 \<le> n \<and> n \<le> 32) \<or> n = 133 \<or> n = 160)"

definition lstrip :: "string \<Rightarrow> string" where
  "lstrip s = dropWhile py_isspace s"

definition rstrip :: "string \<Rightarrow> string" where
  "rstrip s = rev (dropWhile py_isspace (rev s))"

definition strip :: "string \<Rightarrow> string" where
  \<comment> \<open>\<open>s.strip()\<close>\<close>
  "strip s = rstrip (lstrip s)"

definition startswith :: "string \<Rightarrow> string \<Rightarrow> bool" where
  \<comment> \<open>\<open>s.startswith(p)\<close>\<close>
  "startswith s p = (take (length p) s = p)"

definition endswith :: "string \<Rightarrow> string \<Rightarrow> bool" where
  \<comment> \<open>\<open>s.endswith(p)\<close>\<close>
  "endswith s p = (length p \<le> length s \<and> drop (length s - length p) s = p)"

fun py_contains :: "string \<Rightarrow> string \<Rightarrow> bool" where
  \<comment> \<open>\<open>d in s\<close>: \<open>d\<close> occurs in \<open>s\<close> as a contiguous substring.\<close>
  "py_contains d [] = (d = [])"
| "py_contains d (c # cs) = (startswith (c # cs) d \<or> py_contains d cs)"

function py_replace :: "string \<Rightarrow> string \<Rightarrow> string \<Rightarrow> string" where
  \<comment> \<open>\<open>s.replace(old, new)\<close>: the non-overlapping occurrences, from the left.\<close>
  "py_replace old new s =
     (if old = [] then new @ concat (map (\<lambda>c. c # new) s)
      else if startswith s old then new @ py_replace old new (drop (length old) s)
      else (case s of [] \<Rightarrow> [] | c # cs \<Rightarrow> c # py_replace old new cs))"
  by pat_completeness auto
termination
  by (relation "measure (\<lambda>(old, new, s). length s)")
     (auto simp: startswith_def, metis diff_less length_greater_0_conv take_eq_Nil)

declare py_replace.simps [simp del]

definition py_lower_char :: "char \<Rightarrow> char" where
  \<comment> \<open>\<open>str.lower\<close> on one code point below 256.\<close>
  "py_lower_char c =
     (let n = (of_char c :: nat)
      in if (65 \<le> n \<and> n \<le> 90) \<or> (192 \<le> n \<and> n \<le> 222 \<and> n \<noteq> 215)
         then char_of (n + 32) else c)"

definition lower :: "string \<Rightarrow> string" where
  "lower s = map py_lower_char s"

definition is_http :: "string \<Rightarrow> bool" where
  \<comment> \<open>\<open>url.startswith(('http://', 'https://'))\<close>\<close>
  "is_http url = (startswith url ''http://'' \<or> startswith url ''https://'')"

section \<open>Exceptions and the file system\<close>

text \<open>
  Every value of \<open>py_exception\<close> is an instance of Python's \<open>Exception\<close>, the class that
  the handlers of the program catch: a raise is the \<open>Inl\<close> of a sum. A path of the file
  system is absent, present but not readable as UTF-8 text (\<open>open\<close> or the decoding
  raises), or readable with the given content: the decoded text, line ends translated to
  the newline character as text mode does.
\<close>

datatype py_exception =
    FileNotFoundError string
  | TypeError
  | ValueError string
  | OtherException string

datatype file_state = Absent | Unreadable py_exception | Readable string

fun file_lines_from :: "string \<Rightarrow> string \<Rightarrow> string list" where
  \<comment> \<open>\<open>for line in f\<close>: the lines of a text file, each with its newline.\<close>
  "file_lines_from cur [] = (if cur = [] then [] else [cur])"
| "file_lines_from cur (c # cs) =
     (if c = CHR 0x0A then (cur @ [c]) # file_lines_from [] cs
      else file_lines_from (cur @ [c]) cs)"

definition file_lines :: "string \<Rightarrow> string list" where
  "file_lines content = file_lines_from [] content"

fun path_components :: "string \<Rightarrow> string \<Rightarrow> string list" where
  "path_components cur [] = [cur]"
| "path_components cur (c # cs) =
     (if c = CHR ''/'' then cur # path_components [] cs
      else path_components (cur @ [c]) cs)"

definition path_name :: "string \<Rightarrow> string" where
  \<comment> \<open>\<open>Path(p).name\<close>: the last component, empty and \<open>.\<close> components dropped.\<close>
  "path_name p =
     (case rev (filter (\<lambda>c. c \<noteq> [] \<and> c \<noteq> ''.'') (path_components [] p)) of
        [] \<Rightarrow> [] | n # _ \<Rightarrow> n)"

fun rfind_dot :: "string \<Rightarrow> nat option" where
  \<comment> \<open>\<open>name.rfind('.')\<close>, with \<open>None\<close> for -1.\<close>
  "rfind_dot [] = None"
| "rfind_dot (c # cs) =
     (case rfind_dot cs of
        Some i \<Rightarrow> Some (Suc i)
      | None \<Rightarrow> (if c = CHR ''.'' then Some 0 else None))"

definition path_suffix :: "string \<Rightarrow> string" where
  \<comment> \<open>\<open>Path(p).suffix\<close>\<close>
  "path_suffix p =
     (let name = path_name p
      in case rfind_dot name of
           None \<Rightarrow> []
         | Some i \<Rightarrow> (if 0 < i \<and> i + 1 < length name then drop i name else []))"

section \<open>The URL loader\<close>

text \<open>
  \<open>csv.reader\<close> is the standard library's: the loader takes it as a parameter that maps
  the content of a file to its rows, or raises.
\<close>

record loader_env =
  fs :: "string \<Rightarrow> file_state"
  csv_reader :: "string \<Rightarrow> py_exception + string list list"

fun csv_loop :: "string list list \<Rightarrow> string list \<Rightarrow> string list" where
  "csv_loop [] urls = urls"
| "csv_loop (row # rows) urls =
     (if row \<noteq> [] \<and> strip (hd row) \<noteq> []
      then (let url = strip (hd row)
            in if is_http url then csv_loop rows (urls @ [url]) else csv_loop rows urls)
      else csv_loop rows urls)"

fun text_loop :: "string list \<Rightarrow> string list \<Rightarrow> string list" where
  "text_loop [] urls = urls"
| "text_loop (line # lines) urls =
     (let url = strip line
      in if url \<noteq> [] \<and> is_http url then text_loop lines (urls @ [url])
         else text_loop lines urls)"

definition load_urls_from_file :: "'a loader_env_scheme \<Rightarrow> string \<Rightarrow> py_exception + string list" where
  "load_urls_from_file env file_path =
     (case fs env file_path of
        Absent \<Rightarrow> Inl (FileNotFoundError file_path)
      | Unreadable e \<Rightarrow> Inl e
      | Readable content \<Rightarrow>
          (if lower (path_suffix file_path) = ''.csv''
           then (case csv_reader env content of
                   Inl e \<Rightarrow> Inl e
                 | Inr rows \<Rightarrow> Inr (csv_loop rows []))
           else Inr (text_loop (file_lines content) [])))"

section \<open>Configuration and command line\<close>

text \<open>
  \<open>ScreenshotConfig\<close> with the defaults of its \<open>__init__\<close>. The device scale factor is a
  Python float that the program only passes on to the browser; it is carried as a real.
\<close>

record ScreenshotConfig =
  viewport_width :: int
  viewport_height :: int
  device_scale_factor :: real
  full_page :: bool
  wait_timeout :: int
  wait_for_selector :: "string option"
  wait_for_load_state :: string
  disable_animations :: bool
  block_ads :: bool
  output_format :: string
  output_quality :: "int option"
  mobile :: bool
  user_agent :: "string option"

definition ScreenshotConfig_init :: ScreenshotConfig where
  "ScreenshotConfig_init =
     \<lparr> viewport_width = 1920, viewport_height = 1080, device_scale_factor = 2,
       full_page = True, wait_timeout = 30000, wait_for_selector = None,
       wait_for_load_state = ''networkidle'', disable_animations = True, block_ads = True,
       output_format = ''png'', output_quality = None, mobile = False, user_agent = None \<rparr>"

text \<open>
  The namespace that \<open>parser.parse_args()\<close> returns, one field per \<open>add_argument\<close>, and
  the command line as the sequence of option occurrences that \<open>argparse\<close> recognises, each
  with its value already converted by the option's \<open>type\<close>.
\<close>

record args =
  args_url :: "string option"
  args_file :: "string option"
  args_output :: string
  args_format :: string
  args_quality :: int
  args_width :: int
  args_height :: int
  args_scale :: real
  args_mobile :: bool
  args_wait_timeout :: int
  args_wait_selector :: "string option"
  args_wait_state :: string
  args_no_animations :: bool
  args_no_ads :: bool

datatype cli_arg =
    OptUrl string
  | OptFile string
  | OptOutput string
  | OptFormat string
  | OptQuality int
  | OptWidth int
  | OptHeight int
  | OptScale real
  | OptMobile
  | OptWaitTimeout int
  | OptWaitSelector string
  | OptWaitState string
  | OptNoAnimations
  | OptNoAds

definition args_defaults :: args where
  \<comment> \<open>The \<open>default=\<close> of every \<open>add_argument\<close>; \<open>None\<close> where there is none and
      \<open>False\<close> for a plain \<open>store_true\<close>.\<close>
  "args_defaults =
     \<lparr> args_url = None, args_file = None, args_output = ''./screenshots'',
       args_format = ''png'', args_quality = 90, args_width = 1920, args_height = 1080,
       args_scale = 2, args_mobile = False, args_wait_timeout = 30000,
       args_wait_selector = None, args_wait_state = ''networkidle'',
       args_no_animations = True, args_no_ads = True \<rparr>"

fun apply_arg :: "args \<Rightarrow> cli_arg \<Rightarrow> args" where
  \<comment> \<open>The action of one option: \<open>store\<close> sets the value, \<open>store_true\<close> sets \<open>True\<close>.\<close>
  "apply_arg a (OptUrl v) = a\<lparr>args_url := Some v\<rparr>"
| "apply_arg a (OptFile v) = a\<lparr>args_file := Some v\<rparr>"
| "apply_arg a (OptOutput v) = a\<lparr>args_output := v\<rparr>"
| "apply_arg a (OptFormat v) = a\<lparr>args_format := v\<rparr>"
| "apply_arg a (OptQuality v) = a\<lparr>args_quality := v\<rparr>"
| "apply_arg a (OptWidth v) = a\<lparr>args_width := v\<rparr>"
| "apply_arg a (OptHeight v) = a\<lparr>args_height := v\<rparr>"
| "apply_arg a (OptScale v) = a\<lparr>args_scale := v\<rparr>"
| "apply_arg a OptMobile = a\<lparr>args_mobile := True\<rparr>"
| "apply_arg a (OptWaitTimeout v) = a\<lparr>args_wait_timeout := v\<rparr>"
| "apply_arg a (OptWaitSelector v) = a\<lparr>args_wait_selector := Some v\<rparr>"
| "apply_arg a (OptWaitState v) = a\<lparr>args_wait_state := v\<rparr>"
| "apply_arg a OptNoAnimations = a\<lparr>args_no_animations := True\<rparr>"
| "apply_arg a OptNoAds = a\<lparr>args_no_ads := True\<rparr>"

fun choice_ok :: "cli_arg \<Rightarrow> bool" where
  \<comment> \<open>The \<open>choices=\<close> of \<open>--format\<close> and \<open>--wait-state\<close>.\<close>
  "choice_ok (OptFormat v) = (v \<in> set [''png'', ''jpeg''])"
| "choice_ok (OptWaitState v) = (v \<in> set [''load'', ''domcontentloaded'', ''networkidle''])"
| "choice_ok _ = True"

fun is_OptUrl :: "cli_arg \<Rightarrow> bool" where
  "is_OptUrl (OptUrl _) = True"
| "is_OptUrl _ = False"

fun is_OptFile :: "cli_arg \<Rightarrow> bool" where
  "is_OptFile (OptFile _) = True"
| "is_OptFile _ = False"

definition parse_args :: "cli_arg list \<Rightarrow> args option" where
  \<comment> \<open>\<open>None\<close> is the parser's error exit: a value outside the choices, both or neither
      of the mutually exclusive, required \<open>--url\<close> and \<open>--file\<close>.\<close>
  "parse_args argv =
     (if \<not> list_all choice_ok argv then None
      else if list_ex is_OptUrl argv \<and> list_ex is_OptFile argv then None
      else if \<not> list_ex is_OptUrl argv \<and> \<not> list_ex is_OptFile argv then None
      else Some (foldl apply_arg args_defaults argv))"

definition build_config :: "args \<Rightarrow> ScreenshotConfig" where
  \<comment> \<open>\<open>main\<close>, "Create configuration".\<close>
  "build_config a =
     (let config = ScreenshotConfig_init
        \<lparr> viewport_width := args_width a,
          viewport_height := args_height a,
          device_scale_factor := args_scale a,
          mobile := args_mobile a,
          wait_timeout := args_wait_timeout a,
          wait_for_selector := args_wait_selector a,
          wait_for_load_state := args_wait_state a,
          disable_animations := args_no_animations a,
          block_ads := args_no_ads a,
          output_format := args_format a \<rparr>
      in if args_format a = ''jpeg'' then config\<lparr>output_quality := Some (args_quality a)\<rparr>
         else config)"

section \<open>The request handler\<close>

datatype decision = Abort | Continue

definition blocked_domains :: "string list" where
  "blocked_domains =
     [''googletagmanager.com'', ''google-analytics.com'', ''doubleclick.net'',
      ''googlesyndication.com'', ''facebook.com/tr'', ''hotjar.com'',
      ''crazyegg.com'', ''mouseflow.com'', ''clarity.ms'']"

definition block_ads_handler :: "string \<Rightarrow> string \<Rightarrow> decision" where
  \<comment> \<open>\<open>_block_ads_handler\<close>, on the URL and the resource type of the routed request:
      \<open>route.abort()\<close> or \<open>route.continue_()\<close>.\<close>
  "block_ads_handler request_url resource_type =
     (if list_ex (\<lambda>domain. py_contains domain request_url) blocked_domains then Abort
      else if resource_type \<in> set [''document'', ''stylesheet'', ''image'', ''font'']
      then Continue
      else if list_ex (\<lambda>domain. py_contains domain request_url) blocked_domains then Abort
      else Continue)"

section \<open>The browser, the clock and the console\<close>

text \<open>
  The options dictionary of \<open>page.screenshot\<close>; the key \<open>quality\<close> is present or not.
\<close>

record screenshot_options =
  opt_path :: string
  opt_full_page :: bool
  opt_type :: string
  opt_omit_background :: bool
  opt_quality :: "int option"

text \<open>
  What the program does to the outside is a sequence of events: calls into the browser
  engine and the operating system, each of which may raise, lines printed to the console,
  and sleeps. Printing and sleeping do not raise. The outside is a function of the events
  so far: \<open>raises\<close> tells whether a call raises and \<open>now\<close> is the clock; \<open>urlparse\<close> is
  the standard library's and is taken as the function from a URL to its network location,
  or to the \<open>ValueError\<close> it raises. Every theorem holds for every such outside.
\<close>

datatype call =
    StartPlaywright
  | LaunchBrowser
  | CloseBrowser
  | StopPlaywright
  | MakeDirs string
  | NewPage int int real "string option" bool
  | Route
  | AddInitScript
  | Goto string string int
  | WaitForSelector string int
  | WaitForTimeout int
  | EvaluateScrollStep
  | WaitForLoadState string
  | EvaluateScrollTop
  | Screenshot screenshot_options
  | ClosePage
  | GetSize string

datatype message =
    Loading string
  | Capturing
  | Saved string
  | ErrorCapturing string py_exception
  | Processing nat nat string
  | LoadedUrls nat string
  | ErrorLoading py_exception
  | NoValidUrls
  | ScreenshotCompleted
  | ScreenshotFailed
  | BatchResults
  | Successful int int
  | Failed int int
  | FailedUrls
  | FailedUrl string
  | TotalTime

datatype event = Do call | Print message | Sleep nat

type_synonym trace = "event list"

record datetime =
  year :: nat
  month :: nat
  day :: nat
  hour :: nat
  minute :: nat
  second :: nat

record env = loader_env +
  urlparse_netloc :: "string \<Rightarrow> py_exception + string"
  raises :: "trace \<Rightarrow> call \<Rightarrow> py_exception option"
  now :: "trace \<Rightarrow> datetime"

fun run :: "env \<Rightarrow> event list \<Rightarrow> trace \<Rightarrow> py_exception option \<times> trace" where
  \<comment> \<open>A straight-line block: the events in order, up to the first call that raises.\<close>
  "run env [] tr = (None, tr)"
| "run env (Do c # es) tr =
     (case raises env tr c of
        Some e \<Rightarrow> (Some e, tr @ [Do c])
      | None \<Rightarrow> run env es (tr @ [Do c]))"
| "run env (Print m # es) tr = run env es (tr @ [Print m])"
| "run env (Sleep n # es) tr = run env es (tr @ [Sleep n])"

definition digit_char :: "nat \<Rightarrow> char" where
  "digit_char d = ''0123456789'' ! (d mod 10)"

fun decimal :: "nat \<Rightarrow> string" where
  "decimal n = (if n < 10 then [digit_char n] else decimal (n div 10) @ [digit_char n])"

declare decimal.simps [simp del]

definition zfill :: "nat \<Rightarrow> string \<Rightarrow> string" where
  "zfill w s = replicate (w - length s) CHR ''0'' @ s"

definition strftime :: "datetime \<Rightarrow> string" where
  \<comment> \<open>\<open>strftime("%Y%m%d_%H%M%S")\<close>\<close>
  "strftime t =
     zfill 4 (decimal (year t)) @ zfill 2 (decimal (month t)) @ zfill 2 (decimal (day t))
     @ ''_''
     @ zfill 2 (decimal (hour t)) @ zfill 2 (decimal (minute t)) @ zfill 2 (decimal (second t))"

definition path_join :: "string \<Rightarrow> string \<Rightarrow> string" where
  \<comment> \<open>\<open>os.path.join(a, b)\<close> on POSIX.\<close>
  "path_join a b =
     (if startswith b ''/'' then b
      else if a = [] \<or> endswith a ''/'' then a @ b
      else a @ ''/'' @ b)"

definition truthy_int :: "int option \<Rightarrow> bool" where
  \<comment> \<open>The truth value of an optional integer: \<open>None\<close> and \<open>0\<close> are false.\<close>
  "truthy_int v = (case v of None \<Rightarrow> False | Some n \<Rightarrow> n \<noteq> 0)"

section \<open>The capture orchestrator\<close>

definition make_screenshot_options :: "ScreenshotConfig \<Rightarrow> string \<Rightarrow> screenshot_options" where
  "make_screenshot_options config output_path =
     (let options = \<lparr> opt_path = output_path, opt_full_page = full_page config,
                       opt_type = output_format config, opt_omit_background = False,
                       opt_quality = None \<rparr>
      in if output_format config = ''jpeg'' \<and> truthy_int (output_quality config)
         then options\<lparr>opt_quality := output_quality config\<rparr>
         else options)"

definition capture_steps :: "ScreenshotConfig \<Rightarrow> string \<Rightarrow> string \<Rightarrow> event list" where
  \<comment> \<open>The body of the \<open>try\<close> of \<open>capture_screenshot\<close>.\<close>
  "capture_steps config url output_path =
     [Do (NewPage (viewport_width config) (viewport_height config)
            (device_scale_factor config) (user_agent config) (mobile config))]
     @ (if block_ads config then [Do Route] else [])
     @ (if disable_animations config then [Do AddInitScript] else [])
     @ [Print (Loading url),
        Do (Goto url (wait_for_load_state config) (wait_timeout config))]
     @ (case wait_for_selector config of
          None \<Rightarrow> []
        | Some selector \<Rightarrow>
            (if selector \<noteq> [] then [Do (WaitForSelector selector (wait_timeout config))]
             else []))
     @ [Do (WaitForTimeout 2000),
        Do EvaluateScrollStep,
        Do (WaitForLoadState ''networkidle''),
        Do EvaluateScrollTop,
        Do (WaitForTimeout 500),
        Print Capturing,
        Do (Screenshot (make_screenshot_options config output_path)),
        Do ClosePage,
        Do (GetSize output_path),
        Print (Saved output_path)]"

definition capture_screenshot ::
  "env \<Rightarrow> ScreenshotConfig \<Rightarrow> string \<Rightarrow> string \<Rightarrow> trace \<Rightarrow> (py_exception + bool) \<times> trace" where
  \<comment> \<open>\<open>try: ... return True\<close>, \<open>except Exception as e: print(...); return False\<close>\<close>
  "capture_screenshot env config url output_path tr =
     (case run env (capture_steps config url output_path) tr of
        (None, tr') \<Rightarrow> (Inr True, tr')
      | (Some e, tr') \<Rightarrow> (Inr False, tr' @ [Print (ErrorCapturing url e)]))"

section \<open>The batch driver\<close>

text \<open>
  A name template is carried in parsed form: literal text and the replacement fields
  \<open>{domain}\<close>, \<open>{timestamp}\<close> and \<open>{index}\<close>.
\<close>

datatype template_piece = Lit string | FieldDomain | FieldTimestamp | FieldIndex

definition default_template :: "template_piece list" where
  \<comment> \<open>\<open>"{domain}_{timestamp}"\<close>\<close>
  "default_template = [FieldDomain, Lit ''_'', FieldTimestamp]"

fun format_piece :: "string \<Rightarrow> string \<Rightarrow> nat \<Rightarrow> template_piece \<Rightarrow> string" where
  "format_piece domain timestamp index (Lit s) = s"
| "format_piece domain timestamp index FieldDomain = domain"
| "format_piece domain timestamp index FieldTimestamp = timestamp"
| "format_piece domain timestamp index FieldIndex = decimal index"

definition format_template :: "template_piece list \<Rightarrow> string \<Rightarrow> string \<Rightarrow> nat \<Rightarrow> string" where
  \<comment> \<open>\<open>name_template.format(domain=..., timestamp=..., index=...)\<close>\<close>
  "format_template name_template domain timestamp index =
     concat (map (format_piece domain timestamp index) name_template)"

definition url_domain :: "string \<Rightarrow> string" where
  \<comment> \<open>\<open>netloc.replace('www.', '').replace('.', '_')\<close>\<close>
  "url_domain netloc = py_replace ''.'' ''_'' (py_replace ''www.'' [] netloc)"

definition batch_filename :: "ScreenshotConfig \<Rightarrow> template_piece list \<Rightarrow> string \<Rightarrow> string \<Rightarrow> nat \<Rightarrow> string" where
  "batch_filename config name_template netloc timestamp index =
     (let filename = format_template name_template (url_domain netloc) timestamp index
      in if \<not> endswith filename (''.'' @ output_format config)
         then filename @ ''.'' @ output_format config
         else filename)"

definition batch_iteration ::
  "env \<Rightarrow> ScreenshotConfig \<Rightarrow> string \<Rightarrow> template_piece list \<Rightarrow> nat \<Rightarrow> nat \<Rightarrow> string \<Rightarrow> trace
     \<Rightarrow> (py_exception + bool) \<times> trace" where
  \<comment> \<open>One round of the loop of \<open>batch_capture\<close>, up to \<open>success\<close>; \<open>n\<close> is
      \<open>len(urls)\<close> and \<open>i\<close> counts from 1.\<close>
  "batch_iteration env config output_dir name_template n i url tr =
     (let tr1 = tr @ [Print (Processing i n url)]
      in case urlparse_netloc env url of
           Inl e \<Rightarrow> (Inl e, tr1)
         | Inr netloc \<Rightarrow>
             (let timestamp = strftime (now env tr1);
                  filename = batch_filename config name_template netloc timestamp i;
                  output_path = path_join output_dir filename
              in capture_screenshot env config url output_path tr1))"

fun batch_loop ::
  "env \<Rightarrow> ScreenshotConfig \<Rightarrow> string \<Rightarrow> template_piece list \<Rightarrow> nat \<Rightarrow> nat \<Rightarrow> string list
     \<Rightarrow> (string \<times> bool) list \<Rightarrow> trace \<Rightarrow> (py_exception + (string \<times> bool) list) \<times> trace" where
  \<comment> \<open>\<open>for i, url in enumerate(urls, 1)\<close>; \<open>results\<close> is the dictionary, in insertion order.\<close>
  "batch_loop env config output_dir name_template n i [] results tr = (Inr results, tr)"
| "batch_loop env config output_dir name_template n i (url # urls) results tr =
     (case batch_iteration env config output_dir name_template n i url tr of
        (Inl e, tr') \<Rightarrow> (Inl e, tr')
      | (Inr success, tr') \<Rightarrow>
          batch_loop env config output_dir name_template n (i + 1) urls
            (AList.update url success results)
            (if i < n then tr' @ [Sleep 1] else tr'))"

definition batch_capture ::
  "env \<Rightarrow> ScreenshotConfig \<Rightarrow> string list \<Rightarrow> string \<Rightarrow> template_piece list \<Rightarrow> trace
     \<Rightarrow> (py_exception + (string \<times> bool) list) \<times> trace" where
  "batch_capture env config urls output_dir name_template tr =
     (case run env [Do (MakeDirs output_dir)] tr of
        (Some e, tr') \<Rightarrow> (Inl e, tr')
      | (None, tr') \<Rightarrow>
          batch_loop env config output_dir name_template (length urls) 1 urls [] tr')"

section \<open>The main function\<close>

definition successful_count :: "(string \<times> bool) list \<Rightarrow> int" where
  \<comment> \<open>\<open>sum(results.values())\<close>\<close>
  "successful_count results = int (length (filter snd results))"

definition total_count :: "(string \<times> bool) list \<Rightarrow> int" where
  \<comment> \<open>\<open>len(results)\<close>\<close>
  "total_count results = int (length results)"

definition failed_urls :: "(string \<times> bool) list \<Rightarrow> string list" where
  \<comment> \<open>The URLs that the loop over \<open>results.items()\<close> prints.\<close>
  "failed_urls results = map fst (filter (\<lambda>(url, success). \<not> success) results)"

definition batch_summary :: "(string \<times> bool) list \<Rightarrow> event list" where
  "batch_summary results =
     (let successful = successful_count results; total = total_count results
      in [Print BatchResults,
          Print (Successful successful total),
          Print (Failed (total - successful) total)]
         @ (if successful < total
            then Print FailedUrls # map (\<lambda>url. Print (FailedUrl url)) (failed_urls results)
            else []))"

definition single_filename :: "ScreenshotConfig \<Rightarrow> string \<Rightarrow> string \<Rightarrow> string" where
  \<comment> \<open>\<open>f"{domain}_{timestamp}.{config.output_format}"\<close>\<close>
  "single_filename config netloc timestamp =
     url_domain netloc @ ''_'' @ timestamp @ ''.'' @ output_format config"

definition single_capture ::
  "env \<Rightarrow> ScreenshotConfig \<Rightarrow> string \<Rightarrow> string \<Rightarrow> trace \<Rightarrow> (py_exception + int option) \<times> trace" where
  \<comment> \<open>The branch \<open>len(urls) == 1\<close>; \<open>Some 1\<close> is its \<open>return 1\<close>, \<open>None\<close> falls through.\<close>
  "single_capture env config output url tr =
     (case urlparse_netloc env url of
        Inl e \<Rightarrow> (Inl e, tr)
      | Inr netloc \<Rightarrow>
          (let timestamp = strftime (now env tr);
               filename = single_filename config netloc timestamp;
               output_path = path_join output filename
           in case run env [Do (MakeDirs output)] tr of
                (Some e, tr1) \<Rightarrow> (Inl e, tr1)
              | (None, tr1) \<Rightarrow>
                  (case capture_screenshot env config url output_path tr1 of
                     (Inl e, tr2) \<Rightarrow> (Inl e, tr2)
                   | (Inr success, tr2) \<Rightarrow>
                       (if success then (Inr None, tr2 @ [Print ScreenshotCompleted])
                        else (Inr (Some 1), tr2 @ [Print ScreenshotFailed])))))"

definition batch_processing ::
  "env \<Rightarrow> ScreenshotConfig \<Rightarrow> string \<Rightarrow> string list \<Rightarrow> trace \<Rightarrow> (py_exception + int option) \<times> trace" where
  \<comment> \<open>The branch of two or more URLs.\<close>
  "batch_processing env config output urls tr =
     (case batch_capture env config urls output default_template tr of
        (Inl e, tr1) \<Rightarrow> (Inl e, tr1)
      | (Inr results, tr1) \<Rightarrow> (Inr None, tr1 @ batch_summary results))"

definition capture_all ::
  "env \<Rightarrow> ScreenshotConfig \<Rightarrow> string \<Rightarrow> string list \<Rightarrow> trace \<Rightarrow> (py_exception + int) \<times> trace" where
  \<comment> \<open>\<open>async with Screeny(config) as screeny: ...\<close> and what follows it: \<open>__aenter__\<close>
      starts the driver and launches the browser, \<open>__aexit__\<close> closes both on every way
      out of the block and swallows nothing.\<close>
  "capture_all env config output urls tr =
     (case run env [Do StartPlaywright, Do LaunchBrowser] tr of
        (Some e, tr1) \<Rightarrow> (Inl e, tr1)
      | (None, tr1) \<Rightarrow>
          (case (case urls of
                   [url] \<Rightarrow> single_capture env config output url tr1
                 | _ \<Rightarrow> batch_processing env config output urls tr1) of
             (r, tr2) \<Rightarrow>
               (case run env [Do CloseBrowser, Do StopPlaywright] tr2 of
                  (Some e, tr3) \<Rightarrow> (Inl e, tr3)
                | (None, tr3) \<Rightarrow>
                    (case r of
                       Inl e \<Rightarrow> (Inl e, tr3)
                     | Inr (Some code) \<Rightarrow> (Inr code, tr3)
                     | Inr None \<Rightarrow> (Inr 0, tr3 @ [Print TotalTime])))))"

definition load_and_capture :: "env \<Rightarrow> args \<Rightarrow> ScreenshotConfig \<Rightarrow> trace \<Rightarrow> (py_exception + int) \<times> trace" where
  \<comment> \<open>The \<open>else\<close> of \<open>if args.url\<close>, then \<open>if not urls\<close>. Without \<open>--file\<close>,
      \<open>args.file\<close> is \<open>None\<close> and \<open>Path(None)\<close> raises a \<open>TypeError\<close> inside the \<open>try\<close>.\<close>
  "load_and_capture env a config tr =
     (case args_file a of
        None \<Rightarrow> (Inr 1, tr @ [Print (ErrorLoading TypeError)])
      | Some file_path \<Rightarrow>
          (case load_urls_from_file env file_path of
             Inl e \<Rightarrow> (Inr 1, tr @ [Print (ErrorLoading e)])
           | Inr urls \<Rightarrow>
               (let tr1 = tr @ [Print (LoadedUrls (length urls) file_path)]
                in if urls = [] then (Inr 1, tr1 @ [Print NoValidUrls])
                   else capture_all env config (args_output a) urls tr1)))"

definition main :: "env \<Rightarrow> args \<Rightarrow> trace \<Rightarrow> (py_exception + int) \<times> trace" where
  \<comment> \<open>\<open>main\<close> after \<open>parse_args\<close>: the value it returns, or the exception that leaves it.
      \<open>if args.url\<close> is false for \<open>None\<close> and for the empty string.\<close>
  "main env a tr =
     (let config = build_config a
      in case args_url a of
           None \<Rightarrow> load_and_capture env a config tr
         | Some url \<Rightarrow>
             (if url \<noteq> [] then capture_all env config (args_output a) [url] tr
              else load_and_capture env a config tr))"

definition exit_code :: "(py_exception + int) \<Rightarrow> int" where
  \<comment> \<open>\<open>sys.exit(asyncio.run(main()))\<close>: the value returned, and 1 when an exception
      leaves \<open>main\<close>.\<close>
  "exit_code r = (case r of Inl e \<Rightarrow> 1 | Inr code \<Rightarrow> code)"

section \<open>Reading a run\<close>

text \<open>
  What the theorems read off a trace: the URLs announced by the batch loop, and the number
  of pages opened (every call of \<open>capture_screenshot\<close> opens one first).
\<close>

fun processing_url :: "event \<Rightarrow> string list" where
  "processing_url (Print (Processing i n url)) = [url]"
| "processing_url _ = []"

definition attempted :: "trace \<Rightarrow> string list" where
  "attempted tr = concat (map processing_url tr)"

fun is_new_page :: "event \<Rightarrow> bool" where
  "is_new_page (Do (NewPage w h s ua m)) = True"
| "is_new_page _ = False"

definition page_count :: "trace \<Rightarrow> nat" where
  "page_count tr = length (filter is_new_page tr)"

definition input_urls :: "env \<Rightarrow> args \<Rightarrow> py_exception + string list" where
  \<comment> \<open>The list \<open>urls\<close> of \<open>main\<close> after "Load URLs", or the exception caught there.\<close>
  "input_urls env a =
     (let from_file = (case args_file a of
                         None \<Rightarrow> Inl TypeError
                       | Some file_path \<Rightarrow> load_urls_from_file env file_path)
      in case args_url a of
           None \<Rightarrow> from_file
         | Some url \<Rightarrow> (if url \<noteq> [] then Inr [url] else from_file))"



text \<open>
  The policy of the specification for request interception, in its words: abort a request
  whose URL contains a deny-listed domain, allow every other request.
\<close>

definition deny_list_policy :: "string \<Rightarrow> decision" where
  "deny_list_policy request_url =
     (if \<exists>domain \<in> set blocked_domains. py_contains domain request_url then Abort
      else Continue)"

section \<open>A sample environment\<close>

text \<open>
  A concrete outside world, on which the theorems are instantiated: a few files, a reader of
  comma-separated rows, a network location that is the text between the scheme and the next
  \<open>/\<close>, \<open>?\<close> or \<open>#\<close>, a fixed clock, and a browser in which exactly the navigations
  to the given URLs time out.
\<close>

definition sample_text :: string where
  "sample_text =
     ''# my sites'' @ [CHR 0x0A] @ [CHR 0x0A] @ ''  https://example.com  '' @ [CHR 0x0A]
     @ ''ftp://old.example.com'' @ [CHR 0x0A]"

definition sample_csv :: string where
  "sample_csv =
     ''name,url'' @ [CHR 0x0A] @ ''https://www.a.com,first'' @ [CHR 0x0A] @ [CHR 0x0A]
     @ ''second,http://b.org'' @ [CHR 0x0A] @ '' http://b.org ,x'' @ [CHR 0x0A]"

definition sample_fs :: "string \<Rightarrow> file_state" where
  "sample_fs p =
     (if p = ''urls.txt'' then Readable sample_text
      else if p = ''data/urls.csv'' then Readable sample_csv
      else if p = ''empty.txt'' then Readable []
      else if p = ''mixed.txt''
      then Readable (''https://a.com'' @ [CHR 0x0A] @ ''http://[::1'' @ [CHR 0x0A]
                     @ ''https://b.org'' @ [CHR 0x0A])
      else if p = ''bracket.txt'' then Readable (''http://[::1'' @ [CHR 0x0A])
      else if p = ''twice.txt''
      then Readable (''https://example.com'' @ [CHR 0x0A] @ ''https://example.com'' @ [CHR 0x0A])
      else Absent)"

fun split_commas :: "string \<Rightarrow> string \<Rightarrow> string list" where
  "split_commas cur [] = [cur]"
| "split_commas cur (c # cs) =
     (if c = CHR '','' then cur # split_commas [] cs else split_commas (cur @ [c]) cs)"

definition sample_csv_reader :: "string \<Rightarrow> py_exception + string list list" where
  "sample_csv_reader content =
     Inr (map (\<lambda>line. let l = filter (\<lambda>c. c \<noteq> CHR 0x0A) line
                      in if l = [] then [] else split_commas [] l)
            (file_lines content))"

definition sample_netloc :: "string \<Rightarrow> py_exception + string" where
  \<comment> \<open>As \<open>urlparse\<close> does, a network location with one square bracket and not the
      other is refused with a \<open>ValueError\<close>.\<close>
  "sample_netloc url =
     (let netloc = takeWhile (\<lambda>c. c \<notin> set ''/?#'')
                     (drop (if startswith url ''https://'' then 8 else 7) url)
      in if (CHR ''['' \<in> set netloc) \<noteq> (CHR '']'' \<in> set netloc)
         then Inl (ValueError ''Invalid IPv6 URL'')
         else Inr netloc)"

definition sample_raises :: "string list \<Rightarrow> trace \<Rightarrow> call \<Rightarrow> py_exception option" where
  "sample_raises unreachable tr c =
     (case c of
        Goto url state timeout \<Rightarrow>
          (if url \<in> set unreachable then Some (OtherException ''Timeout 30000ms exceeded'')
           else None)
      | _ \<Rightarrow> None)"

definition sample_env :: "string list \<Rightarrow> env" where
  "sample_env unreachable =
     \<lparr> fs = sample_fs, csv_reader = sample_csv_reader, urlparse_netloc = sample_netloc,
       raises = sample_raises unreachable,
       now = (\<lambda>tr. \<lparr> year = 2025, month = 3, day = 9, hour = 14, minute = 5, second = 7 \<rparr>) \<rparr>"

definition flaky_env :: env where
  \<comment> \<open>The sample environment, with a network that fails until a second page is opened.\<close>
  "flaky_env =
     (sample_env [])\<lparr> raises :=
        (\<lambda>tr c. case c of
                   Goto url state timeout \<Rightarrow>
                     (if page_count tr \<le> 1 then Some (OtherException ''net::ERR_FAILED'')
                      else None)
                 | _ \<Rightarrow> None) \<rparr>"

definition sample_args :: "string \<Rightarrow> args" where
  \<comment> \<open>The namespace of \<open>screeny.py -f file\<close>.\<close>
  "sample_args file_path = args_defaults\<lparr>args_file := Some file_path\<rparr>"

section \<open>Properties of the URL loader\<close>

lemma is_http_Nil [simp]: "\<not> is_http []"
  by (simp add: is_http_def startswith_def)

lemma text_loop_filter:
  "text_loop lines urls = urls @ filter is_http (map strip lines)"
  by (induction lines arbitrary: urls) (auto simp: Let_def)

lemma csv_loop_filter:
  "csv_loop rows urls =
     urls @ filter is_http (map (\<lambda>row. strip (hd row)) (filter (\<lambda>row. row \<noteq> []) rows))"
  by (induction rows arbitrary: urls) (auto simp: Let_def)

text \<open>
  C1. For a readable file, the loader returns exactly the entries that start with
  \<open>http://\<close> or \<open>https://\<close> once stripped, in file order: the stripped lines of a text
  file, and the stripped column 0 of the non-empty rows of a file whose suffix, in lower
  case, is \<open>.csv\<close> (an exception of the CSV reader is raised on).
\<close>

theorem load_urls_from_file_entries:
  assumes "fs env file_path = Readable content"
  shows "load_urls_from_file env file_path =
           (if lower (path_suffix file_path) = ''.csv''
            then (case csv_reader env content of
                    Inl e \<Rightarrow> Inl e
                  | Inr rows \<Rightarrow>
                      Inr (filter is_http
                            (map (\<lambda>row. strip (hd row)) (filter (\<lambda>row. row \<noteq> []) rows))))
            else Inr (filter is_http (map strip (file_lines content))))"
  using assms
  by (simp add: load_urls_from_file_def text_loop_filter csv_loop_filter split: sum.splits)

theorem load_urls_from_file_entries_witness:
  "fs (sample_env []) ''urls.txt'' = Readable sample_text
   \<and> load_urls_from_file (sample_env []) ''urls.txt'' = Inr [''https://example.com'']
   \<and> fs (sample_env []) ''data/urls.csv'' = Readable sample_csv
   \<and> load_urls_from_file (sample_env []) ''data/urls.csv''
       = Inr [''https://www.a.com'', ''http://b.org'']"
proof -
  have t: "fs (sample_env []) ''urls.txt'' = Readable sample_text"
    by (simp add: sample_env_def sample_fs_def)
  have c: "fs (sample_env []) ''data/urls.csv'' = Readable sample_csv"
    by (simp add: sample_env_def sample_fs_def)
  have ts: "lower (path_suffix ''urls.txt'') \<noteq> ''.csv''"
    by code_simp
  have cs: "lower (path_suffix ''data/urls.csv'') = ''.csv''"
    by code_simp
  have tl: "filter is_http (map strip (file_lines sample_text)) = [''https://example.com'']"
    by code_simp
  have cr: "csv_reader (sample_env []) sample_csv =
              Inr [[''name'', ''url''], [''https://www.a.com'', ''first''], [],
                   [''second'', ''http://b.org''], ['' http://b.org '', ''x'']]"
    by code_simp
  have cl: "filter is_http (map (\<lambda>row. strip (hd row)) (filter (\<lambda>row. row \<noteq> [])
              [[''name'', ''url''], [''https://www.a.com'', ''first''], [],
               [''second'', ''http://b.org''], ['' http://b.org '', ''x'']]))
            = [''https://www.a.com'', ''http://b.org'']"
    by code_simp
  show ?thesis
    using load_urls_from_file_entries [OF t] load_urls_from_file_entries [OF c] t c
    by (simp only: ts cs tl cr cl if_True if_False sum.case simp_thms)
qed

section \<open>Properties of the command line\<close>

lemma apply_arg_no_animations:
  "args_no_animations a \<Longrightarrow> args_no_animations (apply_arg a x)"
  by (cases x) simp_all

lemma apply_arg_no_ads:
  "args_no_ads a \<Longrightarrow> args_no_ads (apply_arg a x)"
  by (cases x) simp_all

lemma foldl_apply_arg_flags:
  "args_no_animations a \<and> args_no_ads a \<Longrightarrow>
     args_no_animations (foldl apply_arg a argv) \<and> args_no_ads (foldl apply_arg a argv)"
  by (induction argv arbitrary: a) (simp_all add: apply_arg_no_animations apply_arg_no_ads)

lemma build_config_flags:
  "disable_animations (build_config a) = args_no_animations a"
  "block_ads (build_config a) = args_no_ads a"
  by (simp_all add: build_config_def ScreenshotConfig_init_def Let_def)

text \<open>
  C3. Whatever the command line, the configuration built from it disables animations and
  blocks ads: \<open>--no-animations\<close> and \<open>--no-ads\<close> can only store \<open>True\<close> over the default
  \<open>True\<close>.
\<close>

theorem cli_flags_always_on:
  assumes "parse_args argv = Some a"
  shows "disable_animations (build_config a) = True \<and> block_ads (build_config a) = True"
proof -
  from assms have a: "a = foldl apply_arg args_defaults argv"
    by (simp add: parse_args_def split: if_splits)
  have "args_no_animations args_defaults \<and> args_no_ads args_defaults"
    by (simp add: args_defaults_def)
  then show ?thesis
    unfolding a build_config_flags using foldl_apply_arg_flags by simp
qed

theorem cli_flags_always_on_witness:
  "parse_args [OptUrl ''https://example.com'', OptMobile, OptNoAnimations]
     = Some (args_defaults\<lparr>args_url := Some ''https://example.com'', args_mobile := True\<rparr>)
   \<and> disable_animations (build_config
         (args_defaults\<lparr>args_url := Some ''https://example.com'', args_mobile := True\<rparr>)) = True
   \<and> block_ads (build_config
         (args_defaults\<lparr>args_url := Some ''https://example.com'', args_mobile := True\<rparr>)) = True"
proof -
  have p: "parse_args [OptUrl ''https://example.com'', OptMobile, OptNoAnimations]
     = Some (args_defaults\<lparr>args_url := Some ''https://example.com'', args_mobile := True\<rparr>)"
    by (simp add: parse_args_def args_defaults_def)
  show ?thesis using cli_flags_always_on [OF p] p by simp
qed

section \<open>Properties of the request handler\<close>

lemma startswith_iff: "startswith s p \<longleftrightarrow> (\<exists>post. s = p @ post)"
  unfolding startswith_def
  by (metis append_eq_conv_conj append_take_drop_id)

lemma py_contains_iff: "py_contains d s \<longleftrightarrow> (\<exists>pre post. s = pre @ d @ post)"
proof (induction s)
  case Nil
  then show ?case by auto
next
  case (Cons c cs)
  show ?case
  proof
    assume "py_contains d (c # cs)"
    then consider "startswith (c # cs) d" | "py_contains d cs" by auto
    then show "\<exists>pre post. c # cs = pre @ d @ post"
    proof cases
      case 1
      then obtain post where "c # cs = d @ post" by (auto simp: startswith_iff)
      then have "c # cs = [] @ d @ post" by simp
      then show ?thesis by blast
    next
      case 2
      with Cons obtain pre post where "cs = pre @ d @ post" by blast
      then have "c # cs = (c # pre) @ d @ post" by simp
      then show ?thesis by blast
    qed
  next
    assume "\<exists>pre post. c # cs = pre @ d @ post"
    then obtain pre post where e: "c # cs = pre @ d @ post" by blast
    show "py_contains d (c # cs)"
    proof (cases pre)
      case Nil
      with e have "startswith (c # cs) d" by (auto simp: startswith_iff)
      then show ?thesis by simp
    next
      case (Cons x pre')
      with e have "cs = pre' @ d @ post" by simp
      with Cons.IH have "py_contains d cs" by blast
      then show ?thesis by simp
    qed
  qed
qed

text \<open>
  C5. The handler decides every request as the policy of the specification does: it aborts
  exactly the requests whose URL contains a deny-listed domain, whatever the resource type.
\<close>

theorem block_ads_handler_refines_policy:
  "block_ads_handler request_url resource_type = deny_list_policy request_url"
  by (simp add: block_ads_handler_def deny_list_policy_def list_ex_iff)

theorem block_ads_handler_refines_policy_witness:
  "block_ads_handler ''https://www.googletagmanager.com/gtm.js'' ''image'' = Abort
   \<and> deny_list_policy ''https://www.googletagmanager.com/gtm.js'' = Abort
   \<and> block_ads_handler ''https://example.com/app.js'' ''script'' = Continue
   \<and> deny_list_policy ''https://example.com/app.js'' = Continue"
proof -
  have a: "deny_list_policy ''https://www.googletagmanager.com/gtm.js'' = Abort"
    by code_simp
  have c: "deny_list_policy ''https://example.com/app.js'' = Continue"
    by code_simp
  show ?thesis
    using block_ads_handler_refines_policy [of "''https://www.googletagmanager.com/gtm.js''" "''image''"]
      block_ads_handler_refines_policy [of "''https://example.com/app.js''" "''script''"] a c
    by simp
qed

section \<open>Properties of the screenshot options\<close>

lemma screenshot_in_capture_steps:
  "Do (Screenshot opts) \<in> set (capture_steps config url output_path)
     \<longleftrightarrow> opts = make_screenshot_options config output_path"
  by (auto simp: capture_steps_def split: option.splits)

lemma opt_quality_make:
  "opt_quality (make_screenshot_options config output_path) =
     (if output_format config = ''jpeg'' \<and> output_quality config \<noteq> None
         \<and> output_quality config \<noteq> Some 0
      then output_quality config else None)"
  by (auto simp: make_screenshot_options_def truthy_int_def Let_def split: option.splits)

lemma build_config_quality:
  "output_quality (build_config a) =
     (if args_format a = ''jpeg'' then Some (args_quality a) else None)"
  by (simp add: build_config_def ScreenshotConfig_init_def Let_def)

lemma build_config_format: "output_format (build_config a) = args_format a"
  by (simp add: build_config_def ScreenshotConfig_init_def Let_def)

text \<open>
  C10. The options of the screenshot call hold a quality only when the format is jpeg and
  the configured quality is neither absent nor 0, and then it is the configured one. With
  format png the configuration built by \<open>main\<close> has no quality, whatever \<open>--quality\<close>
  says; with format jpeg and quality 0 the configuration holds 0 and the option is left out.
\<close>

theorem quality_only_for_jpeg_nonzero:
  "(Do (Screenshot opts) \<in> set (capture_steps config url output_path)
      \<longrightarrow> (opt_quality opts \<noteq> None
             \<longleftrightarrow> output_format config = ''jpeg'' \<and> output_quality config \<noteq> None
                  \<and> output_quality config \<noteq> Some 0)
          \<and> (opt_quality opts \<noteq> None \<longrightarrow> opt_quality opts = output_quality config))
   \<and> (args_format a = ''png'' \<longrightarrow> output_quality (build_config a) = None)
   \<and> (args_format a = ''jpeg'' \<and> args_quality a = 0
      \<longrightarrow> output_quality (build_config a) = Some 0
          \<and> opt_quality (make_screenshot_options (build_config a) output_path) = None)"
  by (auto simp: screenshot_in_capture_steps opt_quality_make build_config_quality
        build_config_format)

theorem quality_only_for_jpeg_nonzero_witness:
  "Do (Screenshot (make_screenshot_options
         (build_config (args_defaults\<lparr>args_format := ''jpeg''\<rparr>)) ''shots/a.jpeg''))
     \<in> set (capture_steps (build_config (args_defaults\<lparr>args_format := ''jpeg''\<rparr>))
              ''https://example.com'' ''shots/a.jpeg'')
   \<and> opt_quality (make_screenshot_options
         (build_config (args_defaults\<lparr>args_format := ''jpeg''\<rparr>)) ''shots/a.jpeg'') = Some 90
   \<and> args_format (args_defaults\<lparr>args_quality := 80\<rparr>) = ''png''
   \<and> output_quality (build_config (args_defaults\<lparr>args_quality := 80\<rparr>)) = None
   \<and> args_format (args_defaults\<lparr>args_format := ''jpeg'', args_quality := 0\<rparr>) = ''jpeg''
   \<and> args_quality (args_defaults\<lparr>args_format := ''jpeg'', args_quality := 0\<rparr>) = 0
   \<and> opt_quality (make_screenshot_options
         (build_config (args_defaults\<lparr>args_format := ''jpeg'', args_quality := 0\<rparr>))
         ''shots/a.jpeg'') = None"
proof -
  have m: "Do (Screenshot (make_screenshot_options
         (build_config (args_defaults\<lparr>args_format := ''jpeg''\<rparr>)) ''shots/a.jpeg''))
     \<in> set (capture_steps (build_config (args_defaults\<lparr>args_format := ''jpeg''\<rparr>))
              ''https://example.com'' ''shots/a.jpeg'')"
    by (simp add: capture_steps_def)
  have q: "output_quality (build_config (args_defaults\<lparr>args_format := ''jpeg''\<rparr>)) = Some 90"
    by (simp add: build_config_def args_defaults_def ScreenshotConfig_init_def)
  have f: "output_format (build_config (args_defaults\<lparr>args_format := ''jpeg''\<rparr>)) = ''jpeg''"
    by (simp add: build_config_def args_defaults_def ScreenshotConfig_init_def)
  have p: "args_format (args_defaults\<lparr>args_quality := 80\<rparr>) = ''png''"
    by (simp add: args_defaults_def)
  show ?thesis
    using quality_only_for_jpeg_nonzero
            [where opts = "make_screenshot_options
                   (build_config (args_defaults\<lparr>args_format := ''jpeg''\<rparr>)) ''shots/a.jpeg''"
               and config = "build_config (args_defaults\<lparr>args_format := ''jpeg''\<rparr>)"
               and url = "''https://example.com''" and output_path = "''shots/a.jpeg''"
               and a = "args_defaults\<lparr>args_quality := 80\<rparr>"]
          quality_only_for_jpeg_nonzero
            [where opts = "make_screenshot_options
                   (build_config (args_defaults\<lparr>args_format := ''jpeg''\<rparr>)) ''shots/a.jpeg''"
               and config = "build_config (args_defaults\<lparr>args_format := ''jpeg''\<rparr>)"
               and url = "''https://example.com''" and output_path = "''shots/a.jpeg''"
               and a = "args_defaults\<lparr>args_format := ''jpeg'', args_quality := 0\<rparr>"]
          m q f p
    by auto
qed

section \<open>Properties of the main function\<close>

lemma foldl_apply_arg_url:
  "\<not> list_ex is_OptUrl argv \<Longrightarrow> args_url (foldl apply_arg a argv) = args_url a"
proof (induction argv arbitrary: a)
  case Nil
  then show ?case by simp
next
  case (Cons x xs)
  then show ?case by (cases x) simp_all
qed

lemma foldl_apply_arg_file:
  "\<not> list_ex is_OptFile argv \<Longrightarrow> args_file (foldl apply_arg a argv) = args_file a"
proof (induction argv arbitrary: a)
  case Nil
  then show ?case by simp
next
  case (Cons x xs)
  then show ?case by (cases x) simp_all
qed

lemma parse_args_file_no_url:
  assumes "parse_args argv = Some a" and "args_file a = Some file_path"
  shows "args_url a = None"
proof -
  from assms(1) have a: "a = foldl apply_arg args_defaults argv"
    and x: "\<not> (list_ex is_OptUrl argv \<and> list_ex is_OptFile argv)"
    by (simp_all add: parse_args_def split: if_splits)
  have "list_ex is_OptFile argv"
  proof (rule ccontr)
    assume "\<not> list_ex is_OptFile argv"
    then have "args_file a = None"
      unfolding a by (simp add: foldl_apply_arg_file args_defaults_def)
    with assms(2) show False by simp
  qed
  with x have "\<not> list_ex is_OptUrl argv" by simp
  then show ?thesis
    unfolding a by (simp add: foldl_apply_arg_url args_defaults_def)
qed

lemma main_load_error:
  "input_urls env a = Inl e \<Longrightarrow> main env a tr = (Inr 1, tr @ [Print (ErrorLoading e)])"
  by (auto simp: main_def input_urls_def load_and_capture_def Let_def
        split: option.splits sum.splits if_splits)


text \<open>
  C8. For a path that does not exist, the loader raises \<open>FileNotFoundError\<close> and returns
  no URLs; \<open>main\<close>, called with that \<open>--file\<close>, catches it, prints the error and returns 1,
  which is the exit code.
\<close>

theorem missing_file_exit_1:
  assumes "parse_args argv = Some a" and "args_file a = Some file_path"
    and "fs env file_path = Absent"
  shows "load_urls_from_file env file_path = Inl (FileNotFoundError file_path)
         \<and> main env a tr = (Inr 1, tr @ [Print (ErrorLoading (FileNotFoundError file_path))])
         \<and> exit_code (fst (main env a tr)) = 1"
proof -
  have l: "load_urls_from_file env file_path = Inl (FileNotFoundError file_path)"
    using assms(3) by (simp add: load_urls_from_file_def)
  have "args_url a = None"
    using assms(1,2) by (rule parse_args_file_no_url)
  then have "input_urls env a = Inl (FileNotFoundError file_path)"
    using assms(2) l by (simp add: input_urls_def)
  then have "main env a tr = (Inr 1, tr @ [Print (ErrorLoading (FileNotFoundError file_path))])"
    by (rule main_load_error)
  with l show ?thesis by (simp add: exit_code_def)
qed

theorem missing_file_exit_1_witness:
  "parse_args [OptFile ''missing.txt''] = Some (sample_args ''missing.txt'')
   \<and> args_file (sample_args ''missing.txt'') = Some ''missing.txt''
   \<and> fs (sample_env []) ''missing.txt'' = Absent
   \<and> load_urls_from_file (sample_env []) ''missing.txt'' = Inl (FileNotFoundError ''missing.txt'')
   \<and> main (sample_env []) (sample_args ''missing.txt'') []
       = (Inr 1, [Print (ErrorLoading (FileNotFoundError ''missing.txt''))])
   \<and> exit_code (fst (main (sample_env []) (sample_args ''missing.txt'') [])) = 1"
proof -
  have p: "parse_args [OptFile ''missing.txt''] = Some (sample_args ''missing.txt'')"
    by (simp add: parse_args_def sample_args_def)
  have f: "args_file (sample_args ''missing.txt'') = Some ''missing.txt''"
    by (simp add: sample_args_def)
  have m: "fs (sample_env []) ''missing.txt'' = Absent"
    by (simp add: sample_env_def sample_fs_def)
  show ?thesis
    using missing_file_exit_1 [OF p f m, of "[]"] p f m by (simp add: exit_code_def)
qed

section \<open>Properties of the generated file names\<close>

lemma py_replace_char:
  "py_replace [c] [d] s = map (\<lambda>x. if x = c then d else x) s"
proof (induction s)
  case Nil
  show ?case by (simp add: py_replace.simps [of "[c]" "[d]" "[]"] startswith_def)
next
  case (Cons x xs)
  then show ?case by (simp add: py_replace.simps [of "[c]" "[d]" "x # xs"] startswith_def)
qed

lemma url_domain_no_dot: "CHR ''.'' \<notin> set (url_domain netloc)"
  by (auto simp: url_domain_def py_replace_char)

lemma digit_char_digit: "digit_char d \<in> set ''0123456789''"
proof -
  have "d mod 10 < length ''0123456789''" by simp
  then show ?thesis unfolding digit_char_def by (rule nth_mem)
qed

lemma decimal_digits: "set (decimal n) \<subseteq> set ''0123456789''"
proof (induction n rule: decimal.induct)
  case (1 n)
  show ?case
  proof (cases "n < 10")
    case True
    then show ?thesis using digit_char_digit [of n] by (simp add: decimal.simps [of n])
  next
    case False
    then show ?thesis using "1" digit_char_digit [of n] by (simp add: decimal.simps [of n])
  qed
qed

lemma zfill_no_dot: "CHR ''.'' \<notin> set (zfill w (decimal n))"
  using decimal_digits [of n] by (auto simp: zfill_def)

lemma strftime_no_dot: "CHR ''.'' \<notin> set (strftime t)"
  by (simp add: strftime_def zfill_no_dot)

lemma endswith_append: "endswith (s @ p) p"
  by (simp add: endswith_def)

lemma endswith_mem: "endswith s (c # p) \<Longrightarrow> c \<in> set s"
proof -
  assume "endswith s (c # p)"
  then have "drop (length s - length (c # p)) s = c # p"
    by (simp add: endswith_def)
  then have "c \<in> set (drop (length s - length (c # p)) s)" by simp
  then show ?thesis by (rule in_set_dropD)
qed

lemma batch_filename_default:
  assumes "CHR ''.'' \<notin> set timestamp"
  shows "batch_filename config default_template netloc timestamp i =
           url_domain netloc @ ''_'' @ timestamp @ ''.'' @ output_format config"
proof -
  have "\<not> endswith (url_domain netloc @ ''_'' @ timestamp) (CHR ''.'' # output_format config)"
    using endswith_mem [of "url_domain netloc @ ''_'' @ timestamp" "CHR ''.''" "output_format config"]
      url_domain_no_dot [of netloc] assms
    by auto
  then show ?thesis
    by (simp add: batch_filename_def default_template_def format_template_def Let_def)
qed

lemma foldl_apply_arg_format:
  "list_all choice_ok argv \<Longrightarrow> args_format a \<in> {''png'', ''jpeg''} \<Longrightarrow>
     args_format (foldl apply_arg a argv) \<in> {''png'', ''jpeg''}"
proof (induction argv arbitrary: a)
  case Nil
  then show ?case by simp
next
  case (Cons x xs)
  have "args_format (apply_arg a x) \<in> {''png'', ''jpeg''}"
    using Cons.prems by (cases x) auto
  with Cons show ?case by simp
qed

lemma parse_args_format:
  "parse_args argv = Some a \<Longrightarrow> output_format (build_config a) \<in> {''png'', ''jpeg''}"
proof -
  assume p: "parse_args argv = Some a"
  then have a: "a = foldl apply_arg args_defaults argv" and c: "list_all choice_ok argv"
    by (simp_all add: parse_args_def split: if_splits)
  have "args_format args_defaults \<in> {''png'', ''jpeg''}" by (simp add: args_defaults_def)
  with c have "args_format a \<in> {''png'', ''jpeg''}"
    unfolding a by (rule foldl_apply_arg_format)
  then show ?thesis
    by (auto simp: build_config_def ScreenshotConfig_init_def Let_def)
qed

lemma startswith_append_longer:
  "startswith (x @ y) d \<Longrightarrow> length d \<le> length x \<Longrightarrow> startswith x d"
  by (simp add: startswith_def)

lemma startswith_contains: "startswith s d \<Longrightarrow> py_contains d s"
  by (cases s) (auto simp: startswith_def)

lemma py_replace_absent:
  "old \<noteq> [] \<Longrightarrow> \<not> py_contains old s \<Longrightarrow> py_replace old new s = s"
proof (induction s)
  case Nil
  then show ?case by (auto simp: py_replace.simps [of old new "[]"] startswith_def)
next
  case (Cons c cs)
  then show ?case by (simp add: py_replace.simps [of old new "c # cs"])
qed

lemma py_replace_first:
  assumes "old \<noteq> []" and "\<not> py_contains old (pre @ butlast old)"
  shows "py_replace old new (pre @ old @ post) = pre @ new @ py_replace old new post"
  using assms(2)
proof (induction pre)
  case Nil
  have "startswith (old @ post) old" by (simp add: startswith_def)
  then show ?case
    using assms(1) by (simp add: py_replace.simps [of old new "old @ post"])
next
  case (Cons c pre)
  have n: "\<not> startswith ((c # pre) @ old @ post) old"
  proof
    assume s: "startswith ((c # pre) @ old @ post) old"
    have "butlast old @ [last old] = old"
      using assms(1) by (rule append_butlast_last_id)
    then have "old @ post = (butlast old @ [last old]) @ post"
      by (rule arg_cong [where f = "\<lambda>x. x @ post", symmetric])
    then have x: "(c # pre) @ old @ post = ((c # pre) @ butlast old) @ (last old # post)"
      by simp
    from s have "startswith (((c # pre) @ butlast old) @ (last old # post)) old"
      by (simp only: x [symmetric])
    moreover have "length old \<le> length ((c # pre) @ butlast old)"
      using assms(1) by simp
    ultimately have "startswith ((c # pre) @ butlast old) old"
      by (rule startswith_append_longer)
    then have "py_contains old ((c # pre) @ butlast old)"
      by (rule startswith_contains)
    with Cons.prems show False by simp
  qed
  from Cons.prems have "\<not> py_contains old (pre @ butlast old)" by simp
  with Cons.IH have "py_replace old new (pre @ old @ post) = pre @ new @ py_replace old new post"
    by simp
  with n assms(1) show ?case
    by (simp add: py_replace.simps [of old new "c # pre @ old @ post"])
qed

text \<open>
  C7. With the default template \<open>{domain}_{timestamp}\<close>, in the batch loop and in
  single-URL mode alike, the file name is the domain, an underscore, the timestamp, a dot
  and the configured output format. The domain is the network location with \<open>www.\<close>
  removed (each first occurrence cut out, the rest treated the same way; a location
  without \<open>www.\<close> is unchanged) and then every dot replaced by an underscore. It holds no
  dot, nor does the timestamp, so the name ends with the dot and the format; from the
  command line the format is \<open>png\<close> or \<open>jpeg\<close>.
\<close>

theorem default_filename_dots_and_extension:
  "url_domain netloc =
     map (\<lambda>c. if c = CHR ''.'' then CHR ''_'' else c) (py_replace ''www.'' [] netloc)
   \<and> (\<not> py_contains ''www.'' (pre @ ''www'') \<longrightarrow>
         py_replace ''www.'' [] (pre @ ''www.'' @ post) = pre @ py_replace ''www.'' [] post)
   \<and> (\<not> py_contains ''www.'' netloc \<longrightarrow> py_replace ''www.'' [] netloc = netloc)
   \<and> CHR ''.'' \<notin> set (url_domain netloc)
   \<and> CHR ''.'' \<notin> set (strftime t)
   \<and> batch_filename config default_template netloc (strftime t) i =
         url_domain netloc @ ''_'' @ strftime t @ ''.'' @ output_format config
   \<and> single_filename config netloc (strftime t) =
         url_domain netloc @ ''_'' @ strftime t @ ''.'' @ output_format config
   \<and> endswith (batch_filename config default_template netloc (strftime t) i)
         (''.'' @ output_format config)
   \<and> endswith (single_filename config netloc (strftime t)) (''.'' @ output_format config)
   \<and> (parse_args argv = Some a \<longrightarrow>
         output_format (build_config a) = ''png'' \<or> output_format (build_config a) = ''jpeg'')"
proof -
  have e: "endswith ((url_domain netloc @ ''_'' @ strftime t) @ ''.'' @ output_format config)
             (''.'' @ output_format config)"
    by (rule endswith_append)
  have m: "url_domain netloc =
     map (\<lambda>c. if c = CHR ''.'' then CHR ''_'' else c) (py_replace ''www.'' [] netloc)"
    by (simp add: url_domain_def py_replace_char)
  have f: "\<not> py_contains ''www.'' (pre @ ''www'') \<longrightarrow>
         py_replace ''www.'' [] (pre @ ''www.'' @ post) = pre @ py_replace ''www.'' [] post"
    using py_replace_first [of "''www.''" pre "[]" post] by simp
  have n: "\<not> py_contains ''www.'' netloc \<longrightarrow> py_replace ''www.'' [] netloc = netloc"
    using py_replace_absent [of "''www.''" netloc "[]"] by simp
  have r: "CHR ''.'' \<notin> set (url_domain netloc)
   \<and> CHR ''.'' \<notin> set (strftime t)
   \<and> batch_filename config default_template netloc (strftime t) i =
         url_domain netloc @ ''_'' @ strftime t @ ''.'' @ output_format config
   \<and> single_filename config netloc (strftime t) =
         url_domain netloc @ ''_'' @ strftime t @ ''.'' @ output_format config
   \<and> endswith (batch_filename config default_template netloc (strftime t) i)
         (''.'' @ output_format config)
   \<and> endswith (single_filename config netloc (strftime t)) (''.'' @ output_format config)
   \<and> (parse_args argv = Some a \<longrightarrow>
         output_format (build_config a) = ''png'' \<or> output_format (build_config a) = ''jpeg'')"
    using e parse_args_format [of argv a]
    by (simp add: url_domain_no_dot strftime_no_dot batch_filename_default single_filename_def)
  from m f n r show ?thesis by blast
qed

theorem default_filename_dots_and_extension_witness:
  "parse_args [OptUrl ''https://www.example.co.uk/a.b''] =
     Some (args_defaults\<lparr>args_url := Some ''https://www.example.co.uk/a.b''\<rparr>)
   \<and> output_format (build_config
         (args_defaults\<lparr>args_url := Some ''https://www.example.co.uk/a.b''\<rparr>)) = ''png''
   \<and> \<not> py_contains ''www.'' ([] @ ''www'')
   \<and> \<not> py_contains ''www.'' ''example.co.uk''
   \<and> py_replace ''www.'' [] ''www.example.co.uk'' = ''example.co.uk''
   \<and> url_domain ''www.example.co.uk'' = ''example_co_uk''
   \<and> batch_filename (build_config args_defaults) default_template ''www.example.co.uk''
         (strftime (now (sample_env []) [])) 1 = ''example_co_uk_20250309_140507.png''
   \<and> single_filename (build_config args_defaults) ''www.example.co.uk''
         (strftime (now (sample_env []) [])) = ''example_co_uk_20250309_140507.png''"
proof -
  have p: "parse_args [OptUrl ''https://www.example.co.uk/a.b''] =
     Some (args_defaults\<lparr>args_url := Some ''https://www.example.co.uk/a.b''\<rparr>)"
    by (simp add: parse_args_def args_defaults_def)
  have c1: "\<not> py_contains ''www.'' ([] @ ''www'')"
    by code_simp
  have c2: "\<not> py_contains ''www.'' ''example.co.uk''"
    by code_simp
  have t: "strftime (now (sample_env []) []) = ''20250309_140507''"
    by code_simp
  have f: "output_format (build_config args_defaults) = ''png''"
    by (simp add: build_config_def args_defaults_def ScreenshotConfig_init_def)
  have g: "output_format (build_config
         (args_defaults\<lparr>args_url := Some ''https://www.example.co.uk/a.b''\<rparr>)) = ''png''"
    by (simp add: build_config_def args_defaults_def ScreenshotConfig_init_def)
  note w1 = default_filename_dots_and_extension
            [where netloc = "''www.example.co.uk''" and t = "now (sample_env []) []"
               and config = "build_config args_defaults" and i = 1
               and pre = "[]" and post = "''example.co.uk''"
               and argv = "[OptUrl ''https://www.example.co.uk/a.b'']"
               and a = "args_defaults\<lparr>args_url := Some ''https://www.example.co.uk/a.b''\<rparr>"]
  note w2 = default_filename_dots_and_extension
            [where netloc = "''example.co.uk''" and t = "now (sample_env []) []"
               and config = "build_config args_defaults" and i = 1
               and pre = "[]" and post = "''example.co.uk''"
               and argv = "[OptUrl ''https://www.example.co.uk/a.b'']"
               and a = "args_defaults\<lparr>args_url := Some ''https://www.example.co.uk/a.b''\<rparr>"]
  from w2 c2 have r2: "py_replace ''www.'' [] ''example.co.uk'' = ''example.co.uk''"
    by blast
  from w1 c1 have "py_replace ''www.'' [] ([] @ ''www.'' @ ''example.co.uk'')
                     = [] @ py_replace ''www.'' [] ''example.co.uk''"
    by blast
  with r2 have r1: "py_replace ''www.'' [] ''www.example.co.uk'' = ''example.co.uk''"
    by simp
  from w1 have "url_domain ''www.example.co.uk'' =
     map (\<lambda>c. if c = CHR ''.'' then CHR ''_'' else c) (py_replace ''www.'' [] ''www.example.co.uk'')"
    by blast
  with r1 have d: "url_domain ''www.example.co.uk'' = ''example_co_uk''"
    by simp
  from w1 have "batch_filename (build_config args_defaults) default_template ''www.example.co.uk''
         (strftime (now (sample_env []) [])) 1 =
         url_domain ''www.example.co.uk'' @ ''_'' @ strftime (now (sample_env []) []) @ ''.''
           @ output_format (build_config args_defaults)"
    by blast
  then have b: "batch_filename (build_config args_defaults) default_template ''www.example.co.uk''
         (strftime (now (sample_env []) [])) 1 = ''example_co_uk_20250309_140507.png''"
    by (simp add: d t f)
  from w1 have "single_filename (build_config args_defaults) ''www.example.co.uk''
         (strftime (now (sample_env []) [])) =
         url_domain ''www.example.co.uk'' @ ''_'' @ strftime (now (sample_env []) []) @ ''.''
           @ output_format (build_config args_defaults)"
    by blast
  then have s: "single_filename (build_config args_defaults) ''www.example.co.uk''
         (strftime (now (sample_env []) [])) = ''example_co_uk_20250309_140507.png''"
    by (simp add: d t f)
  from p g c1 c2 r1 d b s show ?thesis by blast
qed

section \<open>Properties of the capture orchestrator and the batch driver\<close>

lemma attempted_append [simp]: "attempted (tr @ tr2) = attempted tr @ attempted tr2"
  by (simp add: attempted_def)

lemma page_count_append [simp]: "page_count (tr @ tr2) = page_count tr + page_count tr2"
  by (simp add: page_count_def)

lemma attempted_single [simp]: "attempted [e] = processing_url e"
  by (simp add: attempted_def)

lemma page_count_single [simp]: "page_count [e] = (if is_new_page e then 1 else 0)"
  by (simp add: page_count_def)

lemma run_attempted:
  "\<forall>e \<in> set es. processing_url e = [] \<Longrightarrow> attempted (snd (run env es tr)) = attempted tr"
proof (induction es arbitrary: tr)
  case Nil
  then show ?case by simp
next
  case (Cons e es)
  then show ?case by (cases e) (auto split: option.splits)
qed

lemma run_no_page:
  "\<forall>e \<in> set es. \<not> is_new_page e \<Longrightarrow> page_count (snd (run env es tr)) = page_count tr"
proof (induction es arbitrary: tr)
  case Nil
  then show ?case by simp
next
  case (Cons e es)
  then show ?case by (cases e) (auto split: option.splits)
qed

lemma run_one_page:
  assumes "\<forall>e \<in> set es. \<not> is_new_page e"
  shows "page_count (snd (run env (Do (NewPage w h s ua m) # es) tr)) = page_count tr + 1"
  using run_no_page [OF assms, of env "tr @ [Do (NewPage w h s ua m)]"]
  by (simp split: option.splits)

lemma capture_steps_shape:
  "\<exists>es. capture_steps config url output_path =
          Do (NewPage (viewport_width config) (viewport_height config)
                (device_scale_factor config) (user_agent config) (mobile config)) # es
        \<and> (\<forall>e \<in> set es. \<not> is_new_page e \<and> processing_url e = [])"
  by (auto simp: capture_steps_def split: option.splits)

lemma capture_steps_no_processing:
  "\<forall>e \<in> set (capture_steps config url output_path). processing_url e = []"
  by (auto simp: capture_steps_def split: option.splits)


lemma capture_screenshot_trace:
  "attempted (snd (capture_screenshot env config url output_path tr)) = attempted tr"
  "page_count (snd (capture_screenshot env config url output_path tr)) = page_count tr + 1"
proof -
  obtain r tr' where r: "run env (capture_steps config url output_path) tr = (r, tr')"
    by (cases "run env (capture_steps config url output_path) tr")
  have a: "attempted tr' = attempted tr"
    using run_attempted [OF capture_steps_no_processing, of env config url output_path tr] r
    by simp
  obtain es where es: "capture_steps config url output_path =
          Do (NewPage (viewport_width config) (viewport_height config)
                (device_scale_factor config) (user_agent config) (mobile config)) # es"
    and no: "\<forall>e \<in> set es. \<not> is_new_page e"
    using capture_steps_shape [of config url output_path] by blast
  have "page_count (snd (run env (capture_steps config url output_path) tr)) = page_count tr + 1"
    unfolding es by (rule run_one_page [OF no])
  then have p: "page_count tr' = page_count tr + 1"
    using r by simp
  show "attempted (snd (capture_screenshot env config url output_path tr)) = attempted tr"
    using a r by (simp add: capture_screenshot_def split: option.splits)
  show "page_count (snd (capture_screenshot env config url output_path tr)) = page_count tr + 1"
    using p r by (simp add: capture_screenshot_def split: option.splits)
qed


lemma batch_iteration_trace:
  assumes "batch_iteration env config output_dir name_template n i url tr = (Inr success, tr')"
  shows "attempted tr' = attempted tr @ [url]" and "page_count tr' = page_count tr + 1"
proof -
  let ?tr1 = "tr @ [Print (Processing i n url)]"
  from assms obtain netloc where n: "urlparse_netloc env url = Inr netloc"
    by (auto simp: batch_iteration_def Let_def split: sum.splits)
  let ?p = "path_join output_dir
              (batch_filename config name_template netloc (strftime (now env ?tr1)) i)"
  from assms n have c: "capture_screenshot env config url ?p ?tr1 = (Inr success, tr')"
    by (simp add: batch_iteration_def Let_def)
  show "attempted tr' = attempted tr @ [url]"
    using capture_screenshot_trace(1) [of env config url ?p ?tr1] c by simp
  show "page_count tr' = page_count tr + 1"
    using capture_screenshot_trace(2) [of env config url ?p ?tr1] c by simp
qed


lemma batch_loop_trace:
  assumes "batch_loop env config output_dir name_template n i urls results0 tr = (Inr results, tr')"
  shows "attempted tr' = attempted tr @ urls \<and> page_count tr' = page_count tr + length urls"
  using assms
proof (induction urls arbitrary: i results0 tr)
  case Nil
  then show ?case by simp
next
  case (Cons url urls)
  from Cons.prems obtain success tr1 where
    it: "batch_iteration env config output_dir name_template n i url tr = (Inr success, tr1)"
    and rest: "batch_loop env config output_dir name_template n (i + 1) urls
                 (AList.update url success results0) (if i < n then tr1 @ [Sleep 1] else tr1)
               = (Inr results, tr')"
    by (auto split: prod.splits sum.splits)
  from Cons.IH [OF rest] batch_iteration_trace [OF it]
  show ?case by (auto split: if_splits)
qed

lemma batch_loop_keys:
  assumes "batch_loop env config output_dir name_template n i urls results0 tr = (Inr results, tr')"
  shows "fst ` set results = fst ` set results0 \<union> set urls"
    and "distinct (map fst results0) \<Longrightarrow> distinct (map fst results)"
    and "distinct urls \<Longrightarrow> set urls \<inter> fst ` set results0 = {} \<Longrightarrow>
           map fst results = map fst results0 @ urls"
  using assms
proof (induction urls arbitrary: i results0 tr)
  case Nil
  { case 1 then show ?case by simp }
  { case 2 then show ?case by simp }
  { case 3 then show ?case by simp }
next
  case (Cons url urls)
  { case 1
    from 1 obtain success tr1 where
      rest: "batch_loop env config output_dir name_template n (i + 1) urls
                 (AList.update url success results0) (if i < n then tr1 @ [Sleep 1] else tr1)
               = (Inr results, tr')"
      by (auto split: prod.splits sum.splits)
    from Cons.IH(1) [OF rest] show ?case by (auto simp: dom_update) }
  { case 2
    from 2 obtain success tr1 where
      rest: "batch_loop env config output_dir name_template n (i + 1) urls
                 (AList.update url success results0) (if i < n then tr1 @ [Sleep 1] else tr1)
               = (Inr results, tr')"
      by (auto split: prod.splits sum.splits)
    from Cons.IH(2) [OF _ rest] 2 show ?case by (simp add: distinct_update) }
  { case 3
    from 3 obtain success tr1 where
      rest: "batch_loop env config output_dir name_template n (i + 1) urls
                 (AList.update url success results0) (if i < n then tr1 @ [Sleep 1] else tr1)
               = (Inr results, tr')"
      by (auto split: prod.splits sum.splits)
    from 3 have k: "map fst (AList.update url success results0) = map fst results0 @ [url]"
      by (auto simp: update_keys)
    from 3 have "set urls \<inter> fst ` set (AList.update url success results0) = {}"
      by (auto simp: dom_update)
    from Cons.IH(3) [OF _ this rest] 3 k show ?case by simp }
qed

lemma batch_loop_other:
  assumes "batch_loop env config output_dir name_template n i urls results0 tr = (Inr results, tr')"
    and "url \<notin> set urls"
  shows "map_of results url = map_of results0 url"
  using assms
proof (induction urls arbitrary: i results0 tr)
  case Nil
  then show ?case by simp
next
  case (Cons u urls)
  from Cons.prems obtain success tr1 where
    rest: "batch_loop env config output_dir name_template n (i + 1) urls
                 (AList.update u success results0) (if i < n then tr1 @ [Sleep 1] else tr1)
               = (Inr results, tr')"
    by (auto split: prod.splits sum.splits)
  from Cons.IH [OF rest] Cons.prems show ?case by (simp add: update_conv')
qed

lemma batch_loop_append:
  "batch_loop env config output_dir name_template n i (xs @ ys) results0 tr =
     (case batch_loop env config output_dir name_template n i xs results0 tr of
        (Inl e, tr1) \<Rightarrow> (Inl e, tr1)
      | (Inr results1, tr1) \<Rightarrow>
          batch_loop env config output_dir name_template n (i + length xs) ys results1 tr1)"
proof (induction xs arbitrary: i results0 tr)
  case Nil
  then show ?case by simp
next
  case (Cons x xs)
  show ?case
    by (simp add: Cons.IH split: prod.splits sum.splits)
qed

lemma batch_loop_last_capture:
  assumes "batch_loop env config output_dir name_template n i (pre @ url # post) results0 tr
             = (Inr results, tr')"
    and "url \<notin> set post"
  shows "\<exists>results1 tr1 success tr2.
           batch_loop env config output_dir name_template n i pre results0 tr = (Inr results1, tr1)
           \<and> batch_iteration env config output_dir name_template n (i + length pre) url tr1
               = (Inr success, tr2)
           \<and> map_of results url = Some success"
proof -
  from assms(1) obtain results1 tr1 where
    pre: "batch_loop env config output_dir name_template n i pre results0 tr = (Inr results1, tr1)"
    and rest: "batch_loop env config output_dir name_template n (i + length pre) (url # post)
                 results1 tr1 = (Inr results, tr')"
    by (auto simp: batch_loop_append split: prod.splits sum.splits)
  from rest obtain success tr2 where
    it: "batch_iteration env config output_dir name_template n (i + length pre) url tr1
           = (Inr success, tr2)"
    and post: "batch_loop env config output_dir name_template n (i + length pre + 1) post
                 (AList.update url success results1)
                 (if i + length pre < n then tr2 @ [Sleep 1] else tr2) = (Inr results, tr')"
    by (auto split: prod.splits sum.splits)
  from batch_loop_other [OF post assms(2)]
  have "map_of results url = Some success" by (simp add: update_conv')
  with pre it show ?thesis by blast
qed

lemma batch_capture_loop:
  "batch_capture env config urls output_dir name_template tr = (Inr results, tr') \<longleftrightarrow>
     raises env tr (MakeDirs output_dir) = None
     \<and> batch_loop env config output_dir name_template (length urls) 1 urls []
          (tr @ [Do (MakeDirs output_dir)]) = (Inr results, tr')"
  by (auto simp: batch_capture_def split: option.splits)







text \<open>
  C9. The keys of the dictionary that \<open>batch_capture\<close> returns are the distinct URLs of the
  input, each once. Every URL of the list is captured (one page per list entry), and the
  value of a key is the result of the capture at its last occurrence, so that the
  dictionary has as many entries as there are distinct URLs: fewer than the list has
  entries as soon as a URL occurs twice.
\<close>

theorem batch_results_keys:
  assumes "batch_capture env config urls output_dir name_template tr = (Inr results, tr')"
  shows "fst ` set results = set urls
         \<and> distinct (map fst results)
         \<and> length results = card (set urls)
         \<and> length results \<le> length urls
         \<and> (\<not> distinct urls \<longrightarrow> length results < length urls)
         \<and> page_count tr' = page_count tr + length urls
         \<and> (\<forall>pre url post. urls = pre @ url # post \<and> url \<notin> set post \<longrightarrow>
               (\<exists>results1 tr1 success tr2.
                  batch_loop env config output_dir name_template (length urls) 1 pre []
                    (tr @ [Do (MakeDirs output_dir)]) = (Inr results1, tr1)
                  \<and> batch_iteration env config output_dir name_template (length urls)
                      (1 + length pre) url tr1 = (Inr success, tr2)
                  \<and> map_of results url = Some success))"
proof -
  from assms have l: "batch_loop env config output_dir name_template (length urls) 1 urls []
          (tr @ [Do (MakeDirs output_dir)]) = (Inr results, tr')"
    by (simp add: batch_capture_loop)
  have k: "fst ` set results = set urls"
    using batch_loop_keys(1) [OF l] by simp
  have d: "distinct (map fst results)"
    using batch_loop_keys(2) [OF l] by simp
  have "length results = card (set (map fst results))"
    using distinct_card [OF d] by simp
  with k have c: "length results = card (set urls)" by simp
  have le: "length results \<le> length urls"
    unfolding c by (rule card_length)
  have lt: "\<not> distinct urls \<longrightarrow> length results < length urls"
    using le c card_distinct [of urls] by (auto simp: le_less)
  have p: "page_count tr' = page_count tr + length urls"
    using batch_loop_trace [OF l] by simp
  have v: "\<forall>pre url post. urls = pre @ url # post \<and> url \<notin> set post \<longrightarrow>
               (\<exists>results1 tr1 success tr2.
                  batch_loop env config output_dir name_template (length urls) 1 pre []
                    (tr @ [Do (MakeDirs output_dir)]) = (Inr results1, tr1)
                  \<and> batch_iteration env config output_dir name_template (length urls)
                      (1 + length pre) url tr1 = (Inr success, tr2)
                  \<and> map_of results url = Some success)"
  proof (intro allI impI)
    fix pre url post
    assume u: "urls = pre @ url # post \<and> url \<notin> set post"
    from l u have "batch_loop env config output_dir name_template (length urls) 1
                     (pre @ url # post) [] (tr @ [Do (MakeDirs output_dir)]) = (Inr results, tr')"
      by simp
    from batch_loop_last_capture [OF this] u
    show "\<exists>results1 tr1 success tr2.
                  batch_loop env config output_dir name_template (length urls) 1 pre []
                    (tr @ [Do (MakeDirs output_dir)]) = (Inr results1, tr1)
                  \<and> batch_iteration env config output_dir name_template (length urls)
                      (1 + length pre) url tr1 = (Inr success, tr2)
                  \<and> map_of results url = Some success"
      by simp
  qed
  from k d c le lt p v show ?thesis by blast
qed


theorem batch_results_keys_witness:
  "fst (batch_capture flaky_env (build_config args_defaults)
          [''https://a.com/x'', ''http://www.b.org'', ''https://a.com/x''] ''shots''
          default_template [])
     = Inr [(''https://a.com/x'', True), (''http://www.b.org'', True)]
   \<and> fst ` set [(''https://a.com/x'', True), (''http://www.b.org'', True)]
       = set [''https://a.com/x'', ''http://www.b.org'', ''https://a.com/x'']
   \<and> length [(''https://a.com/x'', True), (''http://www.b.org'', True)]
       < length [''https://a.com/x'', ''http://www.b.org'', ''https://a.com/x'']
   \<and> page_count (snd (batch_capture flaky_env (build_config args_defaults)
          [''https://a.com/x'', ''http://www.b.org'', ''https://a.com/x''] ''shots''
          default_template [])) = 3
   \<and> fst (batch_iteration flaky_env (build_config args_defaults) ''shots'' default_template 3 1
          ''https://a.com/x'' [Do (MakeDirs ''shots'')]) = Inr False"
proof -
  let ?urls = "[''https://a.com/x'', ''http://www.b.org'', ''https://a.com/x'']"
  let ?config = "build_config args_defaults"
  let ?results = "[(''https://a.com/x'', True), (''http://www.b.org'', True)]"
  let ?run = "batch_capture flaky_env ?config ?urls ''shots'' default_template []"
  have f: "fst ?run = Inr ?results"
    by code_simp
  have i: "fst (batch_iteration flaky_env ?config ''shots'' default_template 3 1
                  ''https://a.com/x'' [Do (MakeDirs ''shots'')]) = Inr False"
    by code_simp
  from f have e: "?run = (Inr ?results, snd ?run)"
    by (simp add: prod_eq_iff)
  from batch_results_keys [OF e]
  have k: "fst ` set ?results = set ?urls"
    and l: "\<not> distinct ?urls \<longrightarrow> length ?results < length ?urls"
    and p: "page_count (snd ?run) = page_count [] + length ?urls"
    by blast+
  from p have p': "page_count (snd ?run) = 3"
    by (simp add: page_count_def)
  from l have l': "length ?results < length ?urls"
    by simp
  from f k l' p' i show ?thesis by blast
qed

section \<open>Properties of the batch summary\<close>

lemma failed_urls_filter:
  "distinct (map fst results) \<Longrightarrow>
     failed_urls results = filter (\<lambda>url. map_of results url = Some False) (map fst results)"
proof (induction results)
  case Nil
  then show ?case by (simp add: failed_urls_def)
next
  case (Cons p results)
  obtain u b where p: "p = (u, b)" by (cases p)
  from Cons.prems p have u: "u \<notin> fst ` set results" and d: "distinct (map fst results)"
    by auto
  have "filter (\<lambda>url. map_of (p # results) url = Some False) (map fst results)
          = filter (\<lambda>url. map_of results url = Some False) (map fst results)"
    using u p by (intro filter_cong) auto
  with Cons.IH [OF d] p show ?case
    by (simp add: failed_urls_def)
qed

lemma counts_add_up:
  "successful_count results = total_count results - int (length (failed_urls results))"
proof -
  have "length (filter snd results) + length (filter (\<lambda>p. \<not> snd p) results) = length results"
    by (rule sum_length_filter_compl)
  moreover have "filter (\<lambda>(url, success). \<not> success) results = filter (\<lambda>p. \<not> snd p) results"
    by (rule filter_cong) auto
  ultimately show ?thesis
    by (simp add: successful_count_def total_count_def failed_urls_def)
qed

lemma batch_summary_counts:
  "batch_summary results =
     [Print BatchResults,
      Print (Successful (total_count results - int (length (failed_urls results)))
               (total_count results)),
      Print (Failed (int (length (failed_urls results))) (total_count results))]
     @ (if failed_urls results \<noteq> []
        then Print FailedUrls # map (\<lambda>url. Print (FailedUrl url)) (failed_urls results)
        else [])"
  by (simp add: batch_summary_def Let_def counts_add_up)

text \<open>
  C2, as amended. For a list of N pairwise distinct URLs, the dictionary holds the URLs in
  input order, each with the result of its capture; the summary reports N minus K
  successful out of N, where K is the number of URLs whose capture returned \<open>False\<close>, and
  lists exactly those K URLs in input order.
\<close>

theorem batch_summary_distinct:
  assumes "distinct urls"
    and "batch_capture env config urls output_dir name_template tr = (Inr results, tr')"
  shows "map fst results = urls
         \<and> total_count results = int (length urls)
         \<and> failed_urls results = filter (\<lambda>url. map_of results url = Some False) urls
         \<and> successful_count results = int (length urls) - int (length (failed_urls results))
         \<and> batch_summary results =
             [Print BatchResults,
              Print (Successful (int (length urls) - int (length (failed_urls results)))
                       (int (length urls))),
              Print (Failed (int (length (failed_urls results))) (int (length urls)))]
             @ (if failed_urls results \<noteq> []
                then Print FailedUrls # map (\<lambda>url. Print (FailedUrl url)) (failed_urls results)
                else [])
         \<and> (\<forall>pre url post. urls = pre @ url # post \<longrightarrow>
               (\<exists>results1 tr1 success tr2.
                  batch_loop env config output_dir name_template (length urls) 1 pre []
                    (tr @ [Do (MakeDirs output_dir)]) = (Inr results1, tr1)
                  \<and> batch_iteration env config output_dir name_template (length urls)
                      (1 + length pre) url tr1 = (Inr success, tr2)
                  \<and> map_of results url = Some success))"
proof -
  from assms(2) have l: "batch_loop env config output_dir name_template (length urls) 1 urls []
          (tr @ [Do (MakeDirs output_dir)]) = (Inr results, tr')"
    by (simp add: batch_capture_loop)
  have k: "map fst results = urls"
    using batch_loop_keys(3) [OF l] assms(1) by simp
  then have "length (map fst results) = length urls" by simp
  then have t: "total_count results = int (length urls)"
    by (simp add: total_count_def)
  have f: "failed_urls results = filter (\<lambda>url. map_of results url = Some False) urls"
    using failed_urls_filter [of results] assms(1) k by simp
  have s: "successful_count results = int (length urls) - int (length (failed_urls results))"
    using counts_add_up [of results] t by simp
  have b: "batch_summary results =
             [Print BatchResults,
              Print (Successful (int (length urls) - int (length (failed_urls results)))
                       (int (length urls))),
              Print (Failed (int (length (failed_urls results))) (int (length urls)))]
             @ (if failed_urls results \<noteq> []
                then Print FailedUrls # map (\<lambda>url. Print (FailedUrl url)) (failed_urls results)
                else [])"
    using batch_summary_counts [of results] t by simp
  have v: "\<forall>pre url post. urls = pre @ url # post \<longrightarrow>
               (\<exists>results1 tr1 success tr2.
                  batch_loop env config output_dir name_template (length urls) 1 pre []
                    (tr @ [Do (MakeDirs output_dir)]) = (Inr results1, tr1)
                  \<and> batch_iteration env config output_dir name_template (length urls)
                      (1 + length pre) url tr1 = (Inr success, tr2)
                  \<and> map_of results url = Some success)"
  proof (intro allI impI)
    fix pre url post
    assume u: "urls = pre @ url # post"
    with assms(1) have n: "url \<notin> set post" by simp
    from l u have "batch_loop env config output_dir name_template (length urls) 1
                     (pre @ url # post) [] (tr @ [Do (MakeDirs output_dir)]) = (Inr results, tr')"
      by simp
    from batch_loop_last_capture [OF this n]
    show "\<exists>results1 tr1 success tr2.
                  batch_loop env config output_dir name_template (length urls) 1 pre []
                    (tr @ [Do (MakeDirs output_dir)]) = (Inr results1, tr1)
                  \<and> batch_iteration env config output_dir name_template (length urls)
                      (1 + length pre) url tr1 = (Inr success, tr2)
                  \<and> map_of results url = Some success"
      by simp
  qed
  from k t f s b v show ?thesis by blast
qed

text \<open>
  The claim C2 as stated, for every list, fails when a URL occurs twice: the file
  \<open>twice.txt\<close> gives N = 2 URLs, both captures fail (K = 2), and the summary reports 0
  successful out of 1 and lists one failed URL.
\<close>

theorem batch_summary_duplicates_counterexample:
  "load_urls_from_file (sample_env [''https://example.com'']) ''twice.txt''
     = Inr [''https://example.com'', ''https://example.com'']
   \<and> fst (batch_capture (sample_env [''https://example.com'']) (build_config args_defaults)
          [''https://example.com'', ''https://example.com''] ''./screenshots'' default_template
          [Print (LoadedUrls 2 ''twice.txt''), Do StartPlaywright, Do LaunchBrowser])
       = Inr [(''https://example.com'', False)]
   \<and> batch_summary [(''https://example.com'', False)]
       = [Print BatchResults, Print (Successful 0 1), Print (Failed 1 1), Print FailedUrls,
          Print (FailedUrl ''https://example.com'')]
   \<and> total_count [(''https://example.com'', False)]
       \<noteq> int (length [''https://example.com'', ''https://example.com''])
   \<and> failed_urls [(''https://example.com'', False)]
       \<noteq> [''https://example.com'', ''https://example.com'']
   \<and> Print (Successful 0 1)
       \<in> set (snd (main (sample_env [''https://example.com'']) (sample_args ''twice.txt'') []))"
  by code_simp

theorem batch_summary_distinct_witness:
  "distinct [''https://down.example.com/'', ''https://www.b.org/page'']
   \<and> fst (batch_capture (sample_env [''https://down.example.com/'']) (build_config args_defaults)
          [''https://down.example.com/'', ''https://www.b.org/page''] ''shots'' default_template [])
       = Inr [(''https://down.example.com/'', False), (''https://www.b.org/page'', True)]
   \<and> failed_urls [(''https://down.example.com/'', False), (''https://www.b.org/page'', True)]
       = [''https://down.example.com/'']
   \<and> batch_summary [(''https://down.example.com/'', False), (''https://www.b.org/page'', True)]
       = [Print BatchResults, Print (Successful 1 2), Print (Failed 1 2), Print FailedUrls,
          Print (FailedUrl ''https://down.example.com/'')]"
proof -
  let ?env = "sample_env [''https://down.example.com/'']"
  let ?urls = "[''https://down.example.com/'', ''https://www.b.org/page'']"
  let ?config = "build_config args_defaults"
  let ?results = "[(''https://down.example.com/'', False), (''https://www.b.org/page'', True)]"
  let ?run = "batch_capture ?env ?config ?urls ''shots'' default_template []"
  have d: "distinct ?urls"
    by simp
  have f: "fst ?run = Inr ?results"
    by code_simp
  have u: "failed_urls ?results = [''https://down.example.com/'']"
    by (simp add: failed_urls_def)
  from f have e: "?run = (Inr ?results, snd ?run)"
    by (simp add: prod_eq_iff)
  from batch_summary_distinct [OF d e]
  have "batch_summary ?results =
             [Print BatchResults,
              Print (Successful (int (length ?urls) - int (length (failed_urls ?results)))
                       (int (length ?urls))),
              Print (Failed (int (length (failed_urls ?results))) (int (length ?urls)))]
             @ (if failed_urls ?results \<noteq> []
                then Print FailedUrls # map (\<lambda>url. Print (FailedUrl url)) (failed_urls ?results)
                else [])"
    by blast
  then have b: "batch_summary ?results =
       [Print BatchResults, Print (Successful 1 2), Print (Failed 1 2), Print FailedUrls,
        Print (FailedUrl ''https://down.example.com/'')]"
    by (simp add: u)
  from d f u b show ?thesis by blast
qed

section \<open>Properties of the exit code\<close>


















end
